theory Spec2Isabelle
  imports Main "HOL-Library.Sublist"
begin

section \<open>The importer script \<open>ConvertCSVtoSQL.py\<close>\<close>

text \<open>
  The script opens one database connection and one cursor, iterates over the rows that
  \<open>csv.reader\<close> yields for the input file, and for each row unpacks five fields, parses the
  timestamp with \<open>datetime.strptime\<close>, looks up or inserts an artist, looks up or inserts a
  song, and inserts a listening-history row.  After the loop it commits, closes the cursor
  and the connection, and prints a message.  No exception is caught anywhere.

  Text is modelled as \<open>string\<close>; a character stands for a code point below 256.
\<close>

subsection \<open>Errors\<close>

text \<open>
  The exceptions the script can die from.  \<open>MalformedRowError\<close> is the \<open>ValueError\<close> raised
  by the tuple unpacking of line 23, \<open>DateParseError\<close> the \<open>ValueError\<close> raised by
  \<open>datetime.strptime\<close> in line 26, \<open>DatabaseError\<close> any \<open>psycopg2.Error\<close> raised by
  \<open>cur.execute\<close>, and \<open>CsvError\<close> the \<open>csv.Error\<close> raised by the reader itself.
\<close>

datatype error = MalformedRowError | DateParseError | DatabaseError | CsvError

subsection \<open>Timestamps: \<open>datetime.strptime(s, "%B %d, %Y at %I:%M%p")\<close>\<close>

record datetime =
  year :: nat
  month :: nat
  day :: nat
  hour :: nat
  minute :: nat
  second :: nat

text \<open>
  \<open>strptime\<close> turns the format into a regular expression that is matched, ignoring case, at
  the start of the text: every directive becomes a group of ordered alternatives and every
  run of blanks in the format becomes \<open>\s+\<close>.  A matcher here returns every way of matching a
  prefix, in the order in which the backtracking matcher tries them, as the list of values
  and remaining texts; the first entry of the list for the whole expression is the match.
\<close>

definition is_space :: "char \<Rightarrow> bool" where
  "is_space c = (of_char c \<in> {9, 10, 11, 12, 13, 28, 29, 30, 31, 32, 133, 160 :: nat})"

definition is_digit :: "char \<Rightarrow> bool" where
  "is_digit c = (48 \<le> (of_char c :: nat) \<and> (of_char c :: nat) \<le> 57)"

definition digit_val :: "char \<Rightarrow> nat" where
  "digit_val c = of_char c - 48"

definition lower :: "char \<Rightarrow> char" where
  "lower c = (if 65 \<le> (of_char c :: nat) \<and> (of_char c :: nat) \<le> 90
              then char_of (of_char c + (32 :: nat)) else c)"

text \<open>A literal of the format, matched ignoring case.\<close>

fun lit :: "string \<Rightarrow> string \<Rightarrow> string list" where
  "lit [] s = [s]"
| "lit (p # ps) [] = []"
| "lit (p # ps) (c # s) = (if lower c = lower p then lit ps s else [])"

text \<open>\<open>\s+\<close>: one or more blanks, the longest run first.\<close>

fun spaces :: "string \<Rightarrow> string list" where
  "spaces [] = []"
| "spaces (c # s) = (if is_space c then spaces s @ [s] else [])"

text \<open>Two characters, the first satisfying \<open>P\<close> and the second \<open>Q\<close>, read as a decimal number.\<close>

fun two_chars :: "(char \<Rightarrow> bool) \<Rightarrow> (char \<Rightarrow> bool) \<Rightarrow> string \<Rightarrow> (nat \<times> string) list" where
  "two_chars P Q (a # b # s) =
     (if P a \<and> Q b then [(10 * digit_val a + digit_val b, s)] else [])"
| "two_chars P Q s = []"

fun one_char :: "(char \<Rightarrow> bool) \<Rightarrow> string \<Rightarrow> (nat \<times> string) list" where
  "one_char P (a # s) = (if P a then [(digit_val a, s)] else [])"
| "one_char P [] = []"

definition digit_range :: "nat \<Rightarrow> nat \<Rightarrow> char \<Rightarrow> bool" where
  "digit_range lo hi c = (is_digit c \<and> lo \<le> digit_val c \<and> digit_val c \<le> hi)"

text \<open>\<open>%d\<close> is \<open>3[0-1]|[1-2]\d|0[1-9]|[1-9]| [1-9]\<close>.\<close>

definition directive_d :: "string \<Rightarrow> (nat \<times> string) list" where
  "directive_d s =
     two_chars (digit_range 3 3) (digit_range 0 1) s @
     two_chars (digit_range 1 2) is_digit s @
     two_chars (digit_range 0 0) (digit_range 1 9) s @
     one_char (digit_range 1 9) s @
     (case s of c # r \<Rightarrow> (if c = CHR '' '' then one_char (digit_range 1 9) r else [])
      | [] \<Rightarrow> [])"

text \<open>\<open>%I\<close> is \<open>1[0-2]|0[1-9]|[1-9]\<close>.\<close>

definition directive_I :: "string \<Rightarrow> (nat \<times> string) list" where
  "directive_I s =
     two_chars (digit_range 1 1) (digit_range 0 2) s @
     two_chars (digit_range 0 0) (digit_range 1 9) s @
     one_char (digit_range 1 9) s"

text \<open>\<open>%M\<close> is \<open>[0-5]\d|\d\<close>.\<close>

definition directive_M :: "string \<Rightarrow> (nat \<times> string) list" where
  "directive_M s = two_chars (digit_range 0 5) is_digit s @ one_char is_digit s"

text \<open>\<open>%Y\<close> is \<open>\d\d\d\d\<close>.\<close>

fun directive_Y :: "string \<Rightarrow> (nat \<times> string) list" where
  "directive_Y (a # b # c # d # s) =
     (if is_digit a \<and> is_digit b \<and> is_digit c \<and> is_digit d
      then [(1000 * digit_val a + 100 * digit_val b + 10 * digit_val c + digit_val d, s)]
      else [])"
| "directive_Y s = []"

text \<open>
  \<open>%B\<close> is the alternation of the full month names of the C locale (the script never
  calls \<open>setlocale\<close>); the value is the month's number.
\<close>

definition month_names :: "(string \<times> nat) list" where
  "month_names =
     [(''september'', 9), (''february'', 2), (''november'', 11), (''december'', 12),
      (''january'', 1), (''october'', 10), (''august'', 8), (''march'', 3), (''april'', 4),
      (''june'', 6), (''july'', 7), (''may'', 5)]"

definition directive_B :: "string \<Rightarrow> (nat \<times> string) list" where
  "directive_B s = concat (map (\<lambda>(name, m). map (\<lambda>r. (m, r)) (lit name s)) month_names)"

text \<open>\<open>%p\<close> is \<open>am|pm\<close>; the value says whether it is \<open>pm\<close>.\<close>

definition directive_p :: "string \<Rightarrow> (bool \<times> string) list" where
  "directive_p s = map (\<lambda>r. (False, r)) (lit ''am'' s) @ map (\<lambda>r. (True, r)) (lit ''pm'' s)"

text \<open>Sequencing: every match of the first part, continued by every match of the rest.\<close>

definition seq :: "('a \<times> string) list \<Rightarrow> ('a \<Rightarrow> string \<Rightarrow> 'b list) \<Rightarrow> 'b list" where
  "seq ms k = concat (map (\<lambda>(v, r). k v r) ms)"

definition skip :: "string list \<Rightarrow> (string \<Rightarrow> 'b list) \<Rightarrow> 'b list" where
  "skip rs k = concat (map k rs)"

text \<open>
  The whole expression
  \<open>(?P<B>...)\s+(?P<d>...),\s+(?P<Y>...)\s+at\s+(?P<I>...):(?P<M>...)(?P<p>...)\<close>:
  month, day, year, hour on the 12-hour clock, minute, pm.
\<close>

definition format_regex :: "string \<Rightarrow> ((nat \<times> nat \<times> nat \<times> nat \<times> nat \<times> bool) \<times> string) list" where
  "format_regex s =
     seq (directive_B s) (\<lambda>mo s1.
     skip (spaces s1) (\<lambda>s2.
     seq (directive_d s2) (\<lambda>d s3.
     skip (lit '','' s3) (\<lambda>s4.
     skip (spaces s4) (\<lambda>s5.
     seq (directive_Y s5) (\<lambda>y s6.
     skip (spaces s6) (\<lambda>s7.
     skip (lit ''at'' s7) (\<lambda>s8.
     skip (spaces s8) (\<lambda>s9.
     seq (directive_I s9) (\<lambda>h s10.
     skip (lit '':'' s10) (\<lambda>s11.
     seq (directive_M s11) (\<lambda>mi s12.
     seq (directive_p s12) (\<lambda>pm s13.
       [((mo, d, y, h, mi, pm), s13)])))))))))))))"

definition is_leap :: "nat \<Rightarrow> bool" where
  "is_leap y = (y mod 4 = 0 \<and> (y mod 100 \<noteq> 0 \<or> y mod 400 = 0))"

definition days_in_month :: "nat \<Rightarrow> nat \<Rightarrow> nat" where
  "days_in_month y m =
     (if m = 2 then (if is_leap y then 29 else 28)
      else if m \<in> {4, 6, 9, 11} then 30 else 31)"

text \<open>
  \<open>strptime\<close> raises \<open>ValueError\<close> (here \<open>None\<close>) when the expression does not match, when
  the match leaves text unconverted, and when the fields are not a date (year 0, or a day
  the month does not have).  The hour is converted from the 12-hour clock; seconds are 0.
\<close>

definition strptime :: "string \<Rightarrow> datetime option" where
  "strptime s =
     (case format_regex s of
        [] \<Rightarrow> None
      | ((mo, d, y, h, mi, pm), rest) # _ \<Rightarrow>
          if rest \<noteq> [] then None
          else if y < 1 \<or> days_in_month y mo < d then None
          else Some \<lparr> year = y, month = mo, day = d,
                      hour = (if pm then (if h = 12 then 12 else h + 12)
                              else (if h = 12 then 0 else h)),
                      minute = mi, second = 0 \<rparr>)"

subsection \<open>The input file and \<open>csv.reader\<close>\<close>

definition LF :: char where
  "LF = CHR 0x0A"

definition CR :: char where
  "CR = CHR 0x0D"

text \<open>
  \<open>open(csv_file, "r", encoding="utf-8")\<close> reads in text mode with universal newlines:
  iterating the file yields its lines, each ended by a line feed (the last one possibly
  unterminated), with \<open>\r\n\<close> and a lone \<open>\r\<close> turned into a line feed.  The first
  argument collects the current line in reverse.
\<close>

fun file_lines :: "string \<Rightarrow> string \<Rightarrow> string list" where
  "file_lines cur [] = (if cur = [] then [] else [rev cur])"
| "file_lines cur (c # s) =
     (if c = LF then rev (LF # cur) # file_lines [] s
      else if c = CR then
        (case s of
           [] \<Rightarrow> [rev (LF # cur)]
         | d # s' \<Rightarrow> if d = LF then rev (LF # cur) # file_lines [] s'
                     else rev (LF # cur) # file_lines [] (d # s'))
      else file_lines (c # cur) s)"

text \<open>
  The reader of the \<open>csv\<close> module with the default dialect: delimiter \<open>,\<close>, quote character
  \<open>"\<close>, \<open>doublequote\<close> on, no escape character, \<open>skipinitialspace\<close> off, \<open>strict\<close> off.  Its
  states are those of the module that the default dialect can reach.
\<close>

datatype parser_state =
  START_RECORD | START_FIELD | IN_FIELD | IN_QUOTED_FIELD | QUOTE_IN_QUOTED_FIELD | EAT_CRNL

record reader =
  state_rd :: parser_state
  fields_rd :: "string list"
  field_rd :: string

definition field_limit :: nat where
  "field_limit = 131072"

definition parse_reset :: reader where
  "parse_reset = \<lparr> state_rd = START_RECORD, fields_rd = [], field_rd = [] \<rparr>"

definition parse_save_field :: "reader \<Rightarrow> reader" where
  "parse_save_field rd = rd \<lparr> fields_rd := fields_rd rd @ [field_rd rd], field_rd := [] \<rparr>"

text \<open>Adding a character to a field that already has \<open>field_limit\<close> characters is an error.\<close>

definition parse_add_char :: "reader \<Rightarrow> char \<Rightarrow> error + reader" where
  "parse_add_char rd c =
     (if field_limit \<le> length (field_rd rd) then Inl CsvError
      else Inr (rd \<lparr> field_rd := field_rd rd @ [c] \<rparr>))"

definition is_newline :: "char \<Rightarrow> bool" where
  "is_newline c = (c = LF \<or> c = CR)"

text \<open>
  One step of the reader on a character of the line, or on the end of the line (\<open>None\<close>).
  The case \<open>START_RECORD\<close> falls through to \<open>START_FIELD\<close> on an ordinary character.
\<close>

definition start_field :: "reader \<Rightarrow> char option \<Rightarrow> error + reader" where
  "start_field rd x =
     (case x of
        None \<Rightarrow> Inr ((parse_save_field rd) \<lparr> state_rd := START_RECORD \<rparr>)
      | Some c \<Rightarrow>
          if is_newline c then Inr ((parse_save_field rd) \<lparr> state_rd := EAT_CRNL \<rparr>)
          else if c = CHR 0x22 then Inr (rd \<lparr> state_rd := IN_QUOTED_FIELD \<rparr>)
          else if c = CHR '','' then Inr (parse_save_field rd)
          else (case parse_add_char rd c of
                  Inl e \<Rightarrow> Inl e
                | Inr rd' \<Rightarrow> Inr (rd' \<lparr> state_rd := IN_FIELD \<rparr>)))"

definition parse_process_char :: "reader \<Rightarrow> char option \<Rightarrow> error + reader" where
  "parse_process_char rd x =
     (case state_rd rd of
        START_RECORD \<Rightarrow>
          (case x of
             None \<Rightarrow> Inr rd
           | Some c \<Rightarrow>
               if is_newline c then Inr (rd \<lparr> state_rd := EAT_CRNL \<rparr>)
               else start_field (rd \<lparr> state_rd := START_FIELD \<rparr>) x)
      | START_FIELD \<Rightarrow> start_field rd x
      | IN_FIELD \<Rightarrow>
          (case x of
             None \<Rightarrow> Inr ((parse_save_field rd) \<lparr> state_rd := START_RECORD \<rparr>)
           | Some c \<Rightarrow>
               if is_newline c then Inr ((parse_save_field rd) \<lparr> state_rd := EAT_CRNL \<rparr>)
               else if c = CHR '','' then Inr ((parse_save_field rd) \<lparr> state_rd := START_FIELD \<rparr>)
               else parse_add_char rd c)
      | IN_QUOTED_FIELD \<Rightarrow>
          (case x of
             None \<Rightarrow> Inr rd
           | Some c \<Rightarrow>
               if c = CHR 0x22 then Inr (rd \<lparr> state_rd := QUOTE_IN_QUOTED_FIELD \<rparr>)
               else parse_add_char rd c)
      | QUOTE_IN_QUOTED_FIELD \<Rightarrow>
          (case x of
             None \<Rightarrow> Inr ((parse_save_field rd) \<lparr> state_rd := START_RECORD \<rparr>)
           | Some c \<Rightarrow>
               if c = CHR 0x22 then
                 (case parse_add_char rd c of
                    Inl e \<Rightarrow> Inl e
                  | Inr rd' \<Rightarrow> Inr (rd' \<lparr> state_rd := IN_QUOTED_FIELD \<rparr>))
               else if c = CHR '','' then Inr ((parse_save_field rd) \<lparr> state_rd := START_FIELD \<rparr>)
               else if is_newline c then Inr ((parse_save_field rd) \<lparr> state_rd := EAT_CRNL \<rparr>)
               else (case parse_add_char rd c of
                       Inl e \<Rightarrow> Inl e
                     | Inr rd' \<Rightarrow> Inr (rd' \<lparr> state_rd := IN_FIELD \<rparr>)))
      | EAT_CRNL \<Rightarrow>
          (case x of
             None \<Rightarrow> Inr (rd \<lparr> state_rd := START_RECORD \<rparr>)
           | Some c \<Rightarrow> if is_newline c then Inr rd else Inl CsvError))"

text \<open>The characters of one line, then the end of the line.\<close>

fun process_line :: "reader \<Rightarrow> string \<Rightarrow> error + reader" where
  "process_line rd [] = parse_process_char rd None"
| "process_line rd (c # s) =
     (case parse_process_char rd (Some c) of
        Inl e \<Rightarrow> Inl e
      | Inr rd' \<Rightarrow> process_line rd' s)"

text \<open>
  The rows the reader yields for the lines of the file, and the error that ends the
  iteration, if any.  A record is complete when a line ends in state \<open>START_RECORD\<close>;
  otherwise (inside a quoted field) the next line continues it.  At the end of the input an
  unfinished record is yielded when its current field is not empty or a quoted field is
  open.  The reader is reset before each record.
\<close>

fun reader_rows :: "reader \<Rightarrow> string list \<Rightarrow> string list list \<times> error option" where
  "reader_rows rd [] =
     (if field_rd rd \<noteq> [] \<or> state_rd rd = IN_QUOTED_FIELD
      then ([fields_rd (parse_save_field rd)], None) else ([], None))"
| "reader_rows rd (l # ls) =
     (case process_line rd l of
        Inl e \<Rightarrow> ([], Some e)
      | Inr rd' \<Rightarrow>
          if state_rd rd' = START_RECORD
          then (case reader_rows parse_reset ls of (rs, e) \<Rightarrow> (fields_rd rd' # rs, e))
          else reader_rows rd' ls)"

definition csv_reader :: "string \<Rightarrow> string list list \<times> error option" where
  "csv_reader text = reader_rows parse_reset (file_lines [] text)"

subsection \<open>The database\<close>

text \<open>
  A row maps column names to values; a column that is not listed is \<open>NULL\<close>.  The database
  is the three tables the script names.  The schema is not part of the script; the tables
  are taken to exist with the columns the statements mention.
\<close>

datatype sqlval = SqlNull | SqlInt int | SqlText string | SqlTimestamp datetime

type_synonym sqlrow = "(string \<times> sqlval) list"

record db =
  artists :: "sqlrow list"
  songs :: "sqlrow list"
  user_listening_history :: "sqlrow list"

definition col :: "sqlrow \<Rightarrow> string \<Rightarrow> sqlval" where
  "col r c = (case map_of r c of None \<Rightarrow> SqlNull | Some v \<Rightarrow> v)"

text \<open>
  \<open>SELECT id FROM t WHERE c = v\<close> followed by \<open>fetchone()\<close>: the \<open>id\<close> of the first row
  whose column \<open>c\<close> equals \<open>v\<close> (\<open>NULL\<close> equals nothing), or \<open>None\<close>.
\<close>

definition select_id_where :: "sqlrow list \<Rightarrow> string \<Rightarrow> sqlval \<Rightarrow> sqlval option" where
  "select_id_where t c v =
     (case filter (\<lambda>r. v \<noteq> SqlNull \<and> col r c = v) t of
        [] \<Rightarrow> None
      | r # _ \<Rightarrow> Some (col r ''id''))"

text \<open>
  Modelled from the spec: the \<open>id\<close> columns of \<open>artists\<close> and \<open>songs\<close> are surrogate keys,
  database-generated identifiers (an auto-incrementing integer); the schema that declares
  them is not part of the script.  The next identifier is one more than the largest
  integer \<open>id\<close> in the table, 1 for a table without any.
\<close>

definition int_ids :: "sqlrow list \<Rightarrow> int list" where
  "int_ids t = concat (map (\<lambda>r. case col r ''id'' of SqlInt i \<Rightarrow> [i] | _ \<Rightarrow> []) t)"

definition next_id :: "sqlrow list \<Rightarrow> int" where
  "next_id t = fold max (int_ids t) 0 + 1"

text \<open>
  \<open>INSERT INTO t (columns) VALUES (values)\<close>.  The database rejects a statement whose
  column list and value list differ in length (more target columns than expressions, or
  the converse).  Otherwise the row is appended; with \<open>RETURNING id\<close> the row gets the next
  identifier, which is returned.
\<close>

definition insert_returning_id ::
  "sqlrow list \<Rightarrow> string list \<Rightarrow> sqlval list \<Rightarrow> error + (sqlval \<times> sqlrow list)" where
  "insert_returning_id t columns vals =
     (if length columns \<noteq> length vals then Inl DatabaseError
      else Inr (SqlInt (next_id t), t @ [(''id'', SqlInt (next_id t)) # zip columns vals]))"

definition insert_into ::
  "sqlrow list \<Rightarrow> string list \<Rightarrow> sqlval list \<Rightarrow> error + sqlrow list" where
  "insert_into t columns vals =
     (if length columns \<noteq> length vals then Inl DatabaseError
      else Inr (t @ [zip columns vals]))"

subsection \<open>The body of the loop (lines 23 to 55)\<close>

text \<open>
  Lines 29 to 36, ``Insert artist (if not exists)'': the statement of line 29 and, when
  \<open>fetchone()\<close> is \<open>None\<close>, the statement of line 33.  The result is \<open>artist_id\<close> and the
  state of the transaction.
\<close>

definition insert_artist_if_not_exists :: "string \<Rightarrow> db \<Rightarrow> error + (sqlval \<times> db)" where
  "insert_artist_if_not_exists artist_name tx =
     (case select_id_where (artists tx) ''name'' (SqlText artist_name) of
        None \<Rightarrow>
          (case insert_returning_id (artists tx) [''name''] [SqlText artist_name] of
             Inl e \<Rightarrow> Inl e
           | Inr (artist_id, t) \<Rightarrow> Inr (artist_id, tx \<lparr> artists := t \<rparr>))
      | Some artist_id \<Rightarrow> Inr (artist_id, tx))"

text \<open>
  Lines 39 to 49, ``Insert song (if not exists)'': the statement of line 39 and, when
  \<open>fetchone()\<close> is \<open>None\<close>, the statement of lines 43 to 46.
\<close>

definition insert_song_if_not_exists ::
  "string \<Rightarrow> sqlval \<Rightarrow> string \<Rightarrow> string \<Rightarrow> db \<Rightarrow> error + (sqlval \<times> db)" where
  "insert_song_if_not_exists song_name artist_id spotify_id link tx =
     (case select_id_where (songs tx) ''spotify_id'' (SqlText spotify_id) of
        None \<Rightarrow>
          (case insert_returning_id (songs tx)
                  [''name'', ''artist_id'', ''spotify_id'', ''link'']
                  [SqlText song_name, artist_id, SqlText spotify_id, SqlText link] of
             Inl e \<Rightarrow> Inl e
           | Inr (song_id, t) \<Rightarrow> Inr (song_id, tx \<lparr> songs := t \<rparr>))
      | Some song_id \<Rightarrow> Inr (song_id, tx))"

text \<open>
  Lines 52 to 55, ``Insert listening history'': the statement names four columns,
  \<open>(user_id, song_id, date_listened, listening_time)\<close>, and gives three values,
  \<open>(1, song_id, date_time)\<close>.
\<close>

definition insert_listening_history :: "sqlval \<Rightarrow> datetime \<Rightarrow> db \<Rightarrow> error + db" where
  "insert_listening_history song_id date_time tx =
     (case insert_into (user_listening_history tx)
             [''user_id'', ''song_id'', ''date_listened'', ''listening_time'']
             [SqlInt 1, song_id, SqlTimestamp date_time] of
        Inl e \<Rightarrow> Inl e
      | Inr t \<Rightarrow> Inr (tx \<lparr> user_listening_history := t \<rparr>))"

text \<open>
  One iteration.  The result is the exception raised, if any, and the state of the
  transaction when the iteration ends; a statement that fails changes nothing.
\<close>

definition process_row :: "string list \<Rightarrow> db \<Rightarrow> error option \<times> db" where
  "process_row row tx =
     (case row of
        [date_time_str, song_name, artist_name, spotify_id, link] \<Rightarrow>
          (case strptime date_time_str of
             None \<Rightarrow> (Some DateParseError, tx)
           | Some date_time \<Rightarrow>
               (case insert_artist_if_not_exists artist_name tx of
                  Inl e \<Rightarrow> (Some e, tx)
                | Inr (artist_id, tx1) \<Rightarrow>
                    (case insert_song_if_not_exists song_name artist_id spotify_id link tx1 of
                       Inl e \<Rightarrow> (Some e, tx1)
                     | Inr (song_id, tx2) \<Rightarrow>
                         (case insert_listening_history song_id date_time tx2 of
                            Inl e \<Rightarrow> (Some e, tx2)
                          | Inr tx3 \<Rightarrow> (None, tx3)))))
      | _ \<Rightarrow> (Some MalformedRowError, tx))"

text \<open>The loop of line 21 over the rows already read; it stops at the first exception.\<close>

fun process_rows :: "string list list \<Rightarrow> db \<Rightarrow> error option \<times> db" where
  "process_rows [] tx = (None, tx)"
| "process_rows (row # rows) tx =
     (case process_row row tx of
        (Some e, tx') \<Rightarrow> (Some e, tx')
      | (None, tx') \<Rightarrow> process_rows rows tx')"

text \<open>
  The loop over the reader: the rows it yields are processed in order, and the error that
  ends the iteration is raised once the rows before it have been processed.
\<close>

definition import_loop :: "string list list \<times> error option \<Rightarrow> db \<Rightarrow> error option \<times> db" where
  "import_loop rd tx =
     (case process_rows (fst rd) tx of
        (Some e, tx') \<Rightarrow> (Some e, tx')
      | (None, tx') \<Rightarrow> (snd rd, tx'))"

subsection \<open>The script\<close>

text \<open>
  The state of the process and of the database it talks to: what is committed, the
  uncommitted state of the connection's transaction, whether the connection, the cursor
  and the input file are open, the lines printed, and the exception the process died
  from.
\<close>

record process =
  committed :: db
  transaction :: db
  conn_open :: bool
  cur_open :: bool
  file_open :: bool
  stdout :: "string list"
  raised :: "error option"

text \<open>Lines 6 to 13 and 18: the connection, its cursor and the file are opened.\<close>

definition startup :: "db \<Rightarrow> process" where
  "startup d =
     \<lparr> committed = d, transaction = d, conn_open = True, cur_open = True,
       file_open = True, stdout = [], raised = None \<rparr>"

definition conn_commit :: "process \<Rightarrow> process" where
  "conn_commit p = p \<lparr> committed := transaction p \<rparr>"

definition cur_close :: "process \<Rightarrow> process" where
  "cur_close p = p \<lparr> cur_open := False \<rparr>"

definition conn_close :: "process \<Rightarrow> process" where
  "conn_close p = p \<lparr> conn_open := False \<rparr>"

definition print :: "string \<Rightarrow> process \<Rightarrow> process" where
  "print s p = p \<lparr> stdout := stdout p @ [s] \<rparr>"

text \<open>Leaving the \<open>with\<close> block of line 18 closes the file, also when an exception leaves it.\<close>

definition file_exit :: "process \<Rightarrow> process" where
  "file_exit p = p \<lparr> file_open := False \<rparr>"

text \<open>
  The whole script on the text of the input file and a database.  An exception raised in
  the loop leaves the \<open>with\<close> block and ends the process: lines 58 to 61 are not run.
\<close>

definition main :: "string \<Rightarrow> db \<Rightarrow> process" where
  "main text d =
     (case import_loop (csv_reader text) (transaction (startup d)) of
        (Some e, tx) \<Rightarrow> file_exit ((startup d) \<lparr> transaction := tx, raised := Some e \<rparr>)
      | (None, tx) \<Rightarrow>
          print ''Data imported successfully!''
            (conn_close (cur_close (conn_commit
               (file_exit ((startup d) \<lparr> transaction := tx \<rparr>))))))"

definition empty_db :: db where
  "empty_db = \<lparr> artists = [], songs = [], user_listening_history = [] \<rparr>"

text \<open>Two runs in succession: the second starts from what the first has committed.\<close>

definition run_twice :: "string \<Rightarrow> db \<Rightarrow> process" where
  "run_twice text d = main text (committed (main text d))"

subsection \<open>Referential integrity\<close>

text \<open>
  The identifiers a table holds; the invariant of the data model: every history row
  references the \<open>id\<close> of a song and every song row the \<open>id\<close> of an artist; and the
  relation between two states of the database in which the rows of the first are still
  there, unchanged and in place, in the second.
\<close>

definition ids :: "sqlrow list \<Rightarrow> sqlval set" where
  "ids t = (\<lambda>r. col r ''id'') ` set t"

definition ref_integrity :: "db \<Rightarrow> bool" where
  "ref_integrity tx =
     ((\<forall>h \<in> set (user_listening_history tx). col h ''song_id'' \<in> ids (songs tx)) \<and>
      (\<forall>s \<in> set (songs tx). col s ''artist_id'' \<in> ids (artists tx)))"

definition rows_kept :: "db \<Rightarrow> db \<Rightarrow> bool" where
  "rows_kept tx tx' =
     (prefix (artists tx) (artists tx') \<and> prefix (songs tx) (songs tx') \<and>
      prefix (user_listening_history tx) (user_listening_history tx'))"

subsection \<open>Lines of the input file and the inputs of the examples\<close>

definition DQ :: char where
  "DQ = CHR 0x22"

text \<open>
  A field wrapped in double quotes, as it stands in a line of the file: every double
  quote of its text is doubled.
\<close>

definition escape_quotes :: "string \<Rightarrow> string" where
  "escape_quotes f = concat (map (\<lambda>c. if c = DQ then [DQ, DQ] else [c]) f)"

definition quote_field :: "string \<Rightarrow> string" where
  "quote_field f = DQ # escape_quotes f @ [DQ]"

text \<open>
  The texts a field of one line can have: wrapped in double quotes, any text without a
  line break, commas included; bare, any text without a comma or a line break that does
  not start with a double quote.
\<close>

definition quotable_text :: "string \<Rightarrow> bool" where
  "quotable_text f = (\<forall>c \<in> set f. c \<noteq> LF \<and> c \<noteq> CR)"

definition bare_text :: "string \<Rightarrow> bool" where
  "bare_text f =
     ((\<forall>c \<in> set f. c \<noteq> CHR '','' \<and> c \<noteq> LF \<and> c \<noteq> CR) \<and>
      (case f of [] \<Rightarrow> True | c # _ \<Rightarrow> c \<noteq> DQ))"

text \<open>
  A cell is a text and whether it is wrapped in double quotes; it is valid when its text
  fits that way of writing it and is no longer than the reader's limit.  A line is its
  cells as written, separated by commas.
\<close>

definition written :: "bool \<times> string \<Rightarrow> string" where
  "written cell = (if fst cell then quote_field (snd cell) else snd cell)"

definition valid_cell :: "bool \<times> string \<Rightarrow> bool" where
  "valid_cell cell =
     (length (snd cell) \<le> field_limit \<and>
      (if fst cell then quotable_text (snd cell) else bare_text (snd cell)))"

fun join_fields :: "string list \<Rightarrow> string" where
  "join_fields [] = []"
| "join_fields [x] = x"
| "join_fields (x # y # ys) = x @ CHR '','' # join_fields (y # ys)"

definition csv_line :: "(bool \<times> string) list \<Rightarrow> string" where
  "csv_line cells = join_fields (map written cells)"

text \<open>
  The line of the end-to-end example with its timestamp, which contains a comma, wrapped
  in double quotes, and the line as the example spells it, without them.
\<close>

definition example_line :: string where
  "example_line =
     quote_field ''January 5, 2024 at 3:45PM'' @ '',Song A,Artist X,abc123,http://link''"

definition example_line_unquoted :: string where
  "example_line_unquoted = ''January 5, 2024 at 3:45PM,Song A,Artist X,abc123,http://link''"

text \<open>A file of two rows whose artist names differ only in case.\<close>

definition drake_file :: string where
  "drake_file =
     quote_field ''January 5, 2024 at 3:45PM'' @ '',Song A,Drake,abc123,http://a'' @ [LF] @
     quote_field ''January 5, 2024 at 3:50PM'' @ '',Song B,drake,def456,http://b'' @ [LF]"

text \<open>A database that already holds an artist and a song with the identifier \<open>abc123\<close>.\<close>

definition db_with_song :: db where
  "db_with_song =
     \<lparr> artists = [[(''id'', SqlInt 1), (''name'', SqlText ''Artist X'')]],
       songs = [[(''id'', SqlInt 1), (''name'', SqlText ''Old Name''),
                 (''artist_id'', SqlInt 1), (''spotify_id'', SqlText ''abc123''),
                 (''link'', SqlText ''http://old'')]],
       user_listening_history = [] \<rparr>"

section \<open>Properties\<close>

subsection \<open>Evaluation\<close>

text \<open>The defining equations by which the simplifier runs the model on a concrete input.\<close>

lemmas csv_eval = csv_reader_def parse_reset_def parse_process_char_def start_field_def
  parse_save_field_def parse_add_char_def field_limit_def is_newline_def LF_def CR_def

lemmas db_eval = insert_artist_if_not_exists_def insert_song_if_not_exists_def
  insert_listening_history_def select_id_where_def col_def insert_returning_id_def
  insert_into_def next_id_def int_ids_def

lemmas main_eval = main_def import_loop_def startup_def file_exit_def conn_commit_def
  cur_close_def conn_close_def print_def

subsection \<open>The timestamp format\<close>

lemma strptime_example:
  "strptime ''January 5, 2024 at 3:45PM'' =
     Some \<lparr> year = 2024, month = 1, day = 5, hour = 15, minute = 45, second = 0 \<rparr>"
  by code_simp

lemma strptime_wrong_format: "strptime ''2024-01-05 15:45'' = None"
  by code_simp

subsection \<open>What every run does\<close>

text \<open>The statement of lines 52 to 55 is rejected whatever its parameters are.\<close>

lemma insert_listening_history_rejected:
  "insert_listening_history song_id date_time tx = Inl DatabaseError"
  by (simp add: insert_listening_history_def insert_into_def)

lemma insert_artist_if_not_exists_returns:
  "\<exists>artist_id tx'. insert_artist_if_not_exists artist_name tx = Inr (artist_id, tx')"
  by (simp add: insert_artist_if_not_exists_def insert_returning_id_def split: option.split)

lemma insert_song_if_not_exists_returns:
  "\<exists>song_id tx'.
     insert_song_if_not_exists song_name artist_id spotify_id link tx = Inr (song_id, tx')"
  by (simp add: insert_song_if_not_exists_def insert_returning_id_def split: option.split)

text \<open>Hence every iteration of the loop ends in an exception.\<close>

lemma process_row_raises: "\<exists>e. fst (process_row row tx) = Some e"
proof -
  obtain a tx1 where a: "insert_artist_if_not_exists (row ! 2) tx = Inr (a, tx1)"
    using insert_artist_if_not_exists_returns by blast
  obtain s tx2 where s:
    "insert_song_if_not_exists (row ! 1) a (row ! 3) (row ! 4) tx1 = Inr (s, tx2)"
    using insert_song_if_not_exists_returns by blast
  show ?thesis
    using a s
    by (auto simp: process_row_def insert_listening_history_rejected
        split: list.split option.split sum.split)
qed

lemma process_rows_None: "process_rows rows tx = (None, tx') \<Longrightarrow> rows = [] \<and> tx' = tx"
proof (cases rows)
  case Nil
  assume "process_rows rows tx = (None, tx')"
  with Nil show ?thesis by simp
next
  case (Cons row rest)
  assume run: "process_rows rows tx = (None, tx')"
  obtain e where "fst (process_row row tx) = Some e"
    using process_row_raises by blast
  with run Cons show ?thesis
    by (cases "process_row row tx") auto
qed

lemma import_loop_None: "import_loop rd tx = (None, tx') \<Longrightarrow> rd = ([], None) \<and> tx' = tx"
  by (cases rd) (auto simp: import_loop_def split: prod.splits option.splits
      dest: process_rows_None)

lemma raised_main:
  "raised (main text d) = fst (import_loop (csv_reader text) d)"
  by (simp add: main_def startup_def file_exit_def conn_commit_def cur_close_def
      conn_close_def print_def split: prod.split option.split)

lemma committed_main: "committed (main text d) = d"
  by (auto simp: main_def startup_def file_exit_def conn_commit_def cur_close_def
      conn_close_def print_def split: prod.split option.split dest: import_loop_None)


text \<open>
  Hence the loop ends without an exception only when the reader yields no row and no
  error, and whatever the input file and the database are, the committed database after
  the run is the database before it.
\<close>

theorem run_never_changes_database:
  "committed (main text d) = d \<and>
   (raised (main text d) = None \<longleftrightarrow> csv_reader text = ([], None))"
proof -
  have "fst (import_loop (csv_reader text) d) = None \<longleftrightarrow> csv_reader text = ([], None)"
  proof
    assume "fst (import_loop (csv_reader text) d) = None"
    then show "csv_reader text = ([], None)"
      using import_loop_None [of "csv_reader text" d]
      by (cases "import_loop (csv_reader text) d") auto
  next
    assume "csv_reader text = ([], None)"
    then show "fst (import_loop (csv_reader text) d) = None"
      by (simp add: import_loop_def)
  qed
  then show ?thesis
    by (simp add: committed_main raised_main)
qed

theorem every_row_raises:
  "\<exists>e tx'. process_row row tx = (Some e, tx')"
  using process_row_raises [of row tx] by (cases "process_row row tx") auto

subsection \<open>The empty input\<close>

text \<open>
  Claim C9.  For an empty input file the reader yields no row, the loop body is never
  run, nothing is inserted, the (empty) transaction is committed, the cursor, the
  connection and the file are closed, the success message is printed and no exception is
  raised.
\<close>

theorem C9_empty_input:
  "csv_reader [] = ([], None) \<and>
   main [] d =
     \<lparr> committed = d, transaction = d, conn_open = False, cur_open = False,
       file_open = False, stdout = [''Data imported successfully!''], raised = None \<rparr>"
  by (simp add: csv_reader_def parse_reset_def main_eval)

subsection \<open>One row on an empty database\<close>

lemma csv_reader_example_line:
  "csv_reader example_line =
     ([[''January 5, 2024 at 3:45PM'', ''Song A'', ''Artist X'', ''abc123'',
        ''http://link'']], None)"
  by (simp add: csv_eval example_line_def quote_field_def escape_quotes_def DQ_def)

lemma process_row_example:
  "process_row
     [''January 5, 2024 at 3:45PM'', ''Song A'', ''Artist X'', ''abc123'', ''http://link'']
     empty_db =
     (Some DatabaseError,
      \<lparr> artists = [[(''id'', SqlInt 1), (''name'', SqlText ''Artist X'')]],
        songs = [[(''id'', SqlInt 1), (''name'', SqlText ''Song A''),
                  (''artist_id'', SqlInt 1), (''spotify_id'', SqlText ''abc123''),
                  (''link'', SqlText ''http://link'')]],
        user_listening_history = [] \<rparr>)"
  by (simp add: process_row_def strptime_example db_eval empty_db_def)

text \<open>
  Claim C1 says that every line yields exactly one new history row.  On the line of the
  end-to-end example (timestamp quoted) and an empty database the script inserts the
  artist and the song into its transaction and then dies from the database error of the
  history statement: no history row exists at any time, nothing is committed, and the
  cursor and the connection are left open.
\<close>

theorem C1_history_insert_rejected:
  "main example_line empty_db =
     \<lparr> committed = empty_db,
       transaction =
         \<lparr> artists = [[(''id'', SqlInt 1), (''name'', SqlText ''Artist X'')]],
           songs = [[(''id'', SqlInt 1), (''name'', SqlText ''Song A''),
                     (''artist_id'', SqlInt 1), (''spotify_id'', SqlText ''abc123''),
                     (''link'', SqlText ''http://link'')]],
           user_listening_history = [] \<rparr>,
       conn_open = True, cur_open = True, file_open = False, stdout = [],
       raised = Some DatabaseError \<rparr>"
  by (simp add: main_eval csv_reader_example_line process_row_example)

text \<open>
  The line as the example spells it has a comma inside its unquoted timestamp: the reader
  yields six fields and the unpacking of line 23 fails.
\<close>

lemma example_line_unquoted_fields:
  "csv_reader example_line_unquoted =
     ([[''January 5'', '' 2024 at 3:45PM'', ''Song A'', ''Artist X'', ''abc123'',
        ''http://link'']], None)"
  by (simp add: csv_eval example_line_unquoted_def)

lemma example_line_unquoted_raises:
  "raised (main example_line_unquoted empty_db) = Some MalformedRowError"
  by (simp add: raised_main import_loop_def example_line_unquoted_fields process_row_def)

subsection \<open>Two runs in succession\<close>

text \<open>
  On the line of the end-to-end example both runs die from the database error of the
  history statement; after the second run the database is still empty.
\<close>

lemma two_runs_example:
  "raised (main example_line empty_db) = Some DatabaseError \<and>
   raised (run_twice example_line empty_db) = Some DatabaseError \<and>
   committed (run_twice example_line empty_db) = empty_db"
  by (simp add: run_twice_def committed_main raised_main import_loop_def
      csv_reader_example_line process_row_example)



subsection \<open>Release of the cursor and the connection\<close>

lemma csv_reader_two_fields: "csv_reader ''a,b'' = ([[''a'', ''b'']], None)"
  by (simp add: csv_eval)

lemma csv_reader_wrong_format:
  "csv_reader ''2024-01-05 15:45,Song A,Artist X,abc123,http://link'' =
     ([[''2024-01-05 15:45'', ''Song A'', ''Artist X'', ''abc123'', ''http://link'']], None)"
  by (simp add: csv_eval)

text \<open>
  Claim C2, as stated, fails: a run that dies from a malformed row, or from a timestamp
  that does not parse, leaves the cursor and the connection open.
\<close>

theorem C2_counterexample:
  "raised (main ''a,b'' empty_db) = Some MalformedRowError \<and>
   cur_open (main ''a,b'' empty_db) \<and> conn_open (main ''a,b'' empty_db) \<and>
   raised (main ''2024-01-05 15:45,Song A,Artist X,abc123,http://link'' empty_db)
     = Some DateParseError \<and>
   cur_open (main ''2024-01-05 15:45,Song A,Artist X,abc123,http://link'' empty_db) \<and>
   conn_open (main ''2024-01-05 15:45,Song A,Artist X,abc123,http://link'' empty_db)"
  by (simp add: main_eval csv_reader_two_fields csv_reader_wrong_format process_row_def
      strptime_wrong_format)

text \<open>
  Claim C2, amended.  When no exception is raised the transaction is committed, the
  cursor and the connection are closed and the success message is printed.  When an
  exception is raised, only the input file is closed: the cursor and the connection are
  still open when the process ends, nothing is committed and nothing is printed.
\<close>

theorem C2_close_only_on_success:
  "(raised (main text d) = None \<longrightarrow>
      committed (main text d) = transaction (main text d) \<and>
      \<not> cur_open (main text d) \<and> \<not> conn_open (main text d) \<and> \<not> file_open (main text d) \<and>
      stdout (main text d) = [''Data imported successfully!'']) \<and>
   (raised (main text d) \<noteq> None \<longrightarrow>
      committed (main text d) = d \<and>
      cur_open (main text d) \<and> conn_open (main text d) \<and> \<not> file_open (main text d) \<and>
      stdout (main text d) = [])"
  by (simp add: main_eval split: prod.split option.split)

theorem C2_close_only_on_success_witness:
  "raised (main [] empty_db) = None \<and>
   \<not> cur_open (main [] empty_db) \<and> \<not> conn_open (main [] empty_db) \<and>
   raised (main ''a,b'' empty_db) \<noteq> None \<and>
   cur_open (main ''a,b'' empty_db) \<and> conn_open (main ''a,b'' empty_db)"
proof -
  have ok: "raised (main [] empty_db) = None"
    by (simp add: raised_main import_loop_def csv_reader_def parse_reset_def)
  have bad: "raised (main ''a,b'' empty_db) \<noteq> None"
    by (simp add: raised_main import_loop_def csv_reader_two_fields process_row_def)
  show ?thesis
    using ok bad C2_close_only_on_success [of "[]" empty_db]
      C2_close_only_on_success [of "''a,b''" empty_db]
    by blast
qed

subsection \<open>Rows that abort the run\<close>

lemma process_rows_append:
  "process_rows (xs @ ys) tx =
     (case process_rows xs tx of
        (Some e, tx') \<Rightarrow> (Some e, tx')
      | (None, tx') \<Rightarrow> process_rows ys tx')"
  by (induction xs arbitrary: tx) (auto split: prod.split option.split)

lemma process_row_malformed:
  "length row \<noteq> 5 \<Longrightarrow> process_row row tx = (Some MalformedRowError, tx)"
  by (auto simp: process_row_def split: list.split)

lemma process_row_wrong_format:
  "strptime date_time_str = None \<Longrightarrow>
   process_row [date_time_str, song_name, artist_name, spotify_id, link] tx
     = (Some DateParseError, tx)"
  by (simp add: process_row_def)

text \<open>
  A row that raises whatever the state of the transaction decides the exception of the
  run when no row before it raises.
\<close>

lemma process_rows_at:
  assumes "i < length rows"
      and "fst (process_rows (take i rows) tx) = None"
      and "\<And>tx'. process_row (rows ! i) tx' = (Some e, tx')"
  shows "fst (process_rows rows tx) = Some e"
proof -
  have split: "rows = take i rows @ rows ! i # drop (Suc i) rows"
    using assms(1) by (simp add: id_take_nth_drop)
  obtain tx' where pre: "process_rows (take i rows) tx = (None, tx')"
    using assms(2) by (cases "process_rows (take i rows) tx") auto
  have "process_rows rows tx = process_rows (rows ! i # drop (Suc i) rows) tx'"
    using pre process_rows_append [of "take i rows" "rows ! i # drop (Suc i) rows" tx]
      split by simp
  then show ?thesis
    by (simp add: assms(3))
qed

lemma raised_main_rows:
  "csv_reader text = (rows, e) \<Longrightarrow> rows \<noteq> [] \<Longrightarrow>
   raised (main text d) = fst (process_rows rows d) \<and> raised (main text d) \<noteq> None"
  by (auto simp: raised_main import_loop_def split: prod.splits option.splits
      dest: process_rows_None)

lemma csv_reader_malformed_then_wrong_format:
  "csv_reader (''a,b'' @ [LF] @ ''2024-01-05 15:45,Song A,Artist X,abc123,http://link'') =
     ([[''a'', ''b''],
       [''2024-01-05 15:45'', ''Song A'', ''Artist X'', ''abc123'', ''http://link'']], None)"
  by (simp add: csv_eval)

lemma csv_reader_wrong_format_then_malformed:
  "csv_reader (''2024-01-05 15:45,Song A,Artist X,abc123,http://link'' @ [LF] @ ''a,b'') =
     ([[''2024-01-05 15:45'', ''Song A'', ''Artist X'', ''abc123'', ''http://link''],
       [''a'', ''b'']], None)"
  by (simp add: csv_eval)

text \<open>
  Claim C3, as stated, fails: the file below contains a row with the timestamp
  \<open>2024-01-05 15:45\<close>, which does not match the format, and the run dies from the malformed
  row before it, not from a date-parse error.
\<close>

theorem C3_counterexample:
  "csv_reader (''a,b'' @ [LF] @ ''2024-01-05 15:45,Song A,Artist X,abc123,http://link'') =
     ([[''a'', ''b''],
       [''2024-01-05 15:45'', ''Song A'', ''Artist X'', ''abc123'', ''http://link'']], None) \<and>
   strptime ''2024-01-05 15:45'' = None \<and>
   raised (main (''a,b'' @ [LF] @ ''2024-01-05 15:45,Song A,Artist X,abc123,http://link'')
             empty_db) = Some MalformedRowError"
  by (simp add: csv_reader_malformed_then_wrong_format strptime_wrong_format raised_main
      import_loop_def process_row_def del: append.simps)

text \<open>
  Claim C3, amended.  For every input in which the reader yields a row of five fields
  whose timestamp does not match the format, the run raises an exception and the committed
  database after the run is the database before it; the exception is the date-parse error
  when no row before that row raises, in particular when the row is the first of the file.
\<close>

theorem C3_wrong_format_aborts:
  assumes "csv_reader text = (rows, e)"
      and "i < length rows"
      and "rows ! i = [date_time_str, song_name, artist_name, spotify_id, link]"
      and "strptime date_time_str = None"
  shows "raised (main text d) \<noteq> None \<and> committed (main text d) = d \<and>
         (fst (process_rows (take i rows) d) = None \<longrightarrow>
            raised (main text d) = Some DateParseError)"
proof -
  have ne: "rows \<noteq> []"
    using assms(2) by auto
  have r: "raised (main text d) = fst (process_rows rows d)"
    using raised_main_rows [OF assms(1) ne, of d] by blast
  have r': "raised (main text d) \<noteq> None"
    using raised_main_rows [OF assms(1) ne, of d] by blast
  have "fst (process_rows rows d) = Some DateParseError"
    if "fst (process_rows (take i rows) d) = None"
    using process_rows_at [OF assms(2) that, of DateParseError]
      process_row_wrong_format [OF assms(4)] assms(3) by simp
  then show ?thesis
    using r r' committed_main by simp
qed

theorem C3_wrong_format_aborts_witness:
  "raised (main ''2024-01-05 15:45,Song A,Artist X,abc123,http://link'' empty_db)
     = Some DateParseError \<and>
   committed (main ''2024-01-05 15:45,Song A,Artist X,abc123,http://link'' empty_db)
     = empty_db"
  using C3_wrong_format_aborts [OF csv_reader_wrong_format, of 0 "''2024-01-05 15:45''"
      "''Song A''" "''Artist X''" "''abc123''" "''http://link''" empty_db]
    strptime_wrong_format
  by simp

text \<open>
  Claim C8, as stated, fails: the file below contains a row of two fields, and the run
  dies from the date-parse error of the row before it, not from the malformed row.
\<close>

theorem C8_counterexample:
  "csv_reader (''2024-01-05 15:45,Song A,Artist X,abc123,http://link'' @ [LF] @ ''a,b'') =
     ([[''2024-01-05 15:45'', ''Song A'', ''Artist X'', ''abc123'', ''http://link''],
       [''a'', ''b'']], None) \<and>
   raised (main (''2024-01-05 15:45,Song A,Artist X,abc123,http://link'' @ [LF] @ ''a,b'')
             empty_db) = Some DateParseError"
  by (simp add: csv_reader_wrong_format_then_malformed strptime_wrong_format raised_main
      import_loop_def process_row_def del: append.simps)

text \<open>
  Claim C8, amended.  For every input in which the reader yields a row that does not have
  exactly five fields, the run raises an exception and commits nothing; the exception is
  the malformed-row error when no row before that row raises, in particular when the row
  is the first of the file.
\<close>

theorem C8_malformed_row_aborts:
  assumes "csv_reader text = (rows, e)"
      and "i < length rows"
      and "length (rows ! i) \<noteq> 5"
  shows "raised (main text d) \<noteq> None \<and> committed (main text d) = d \<and>
         (fst (process_rows (take i rows) d) = None \<longrightarrow>
            raised (main text d) = Some MalformedRowError)"
proof -
  have ne: "rows \<noteq> []"
    using assms(2) by auto
  have r: "raised (main text d) = fst (process_rows rows d)"
    using raised_main_rows [OF assms(1) ne, of d] by blast
  have r': "raised (main text d) \<noteq> None"
    using raised_main_rows [OF assms(1) ne, of d] by blast
  have "fst (process_rows rows d) = Some MalformedRowError"
    if "fst (process_rows (take i rows) d) = None"
    using process_rows_at [OF assms(2) that, of MalformedRowError]
      process_row_malformed [OF assms(3)] by simp
  then show ?thesis
    using r r' committed_main by simp
qed

theorem C8_malformed_row_aborts_witness:
  "raised (main ''a,b'' empty_db) = Some MalformedRowError \<and>
   committed (main ''a,b'' empty_db) = empty_db"
  using C8_malformed_row_aborts [OF csv_reader_two_fields, of 0 empty_db]
  by simp

subsection \<open>The queries and the identifiers\<close>

lemma select_id_where_Some:
  "select_id_where t c v = Some i \<Longrightarrow> \<exists>r \<in> set t. col r c = v \<and> col r ''id'' = i"
proof -
  assume a: "select_id_where t c v = Some i"
  then obtain r rs where f: "filter (\<lambda>r. v \<noteq> SqlNull \<and> col r c = v) t = r # rs"
    and i: "i = col r ''id''"
    by (auto simp: select_id_where_def split: list.splits)
  have "r \<in> set (filter (\<lambda>r. v \<noteq> SqlNull \<and> col r c = v) t)"
    using f by simp
  then show ?thesis
    using i by auto
qed

lemma select_id_where_find:
  "v \<noteq> SqlNull \<Longrightarrow>
   select_id_where t c v = map_option (\<lambda>r. col r ''id'') (find (\<lambda>r. col r c = v) t)"
  by (induction t) (auto simp: select_id_where_def)

lemma select_id_where_None:
  "v \<noteq> SqlNull \<Longrightarrow> select_id_where t c v = None \<longleftrightarrow> (\<forall>r \<in> set t. col r c \<noteq> v)"
  by (auto simp: select_id_where_find find_None_iff)


lemma fold_max_ge: "(a::int) \<le> fold max xs a"
  by (induction xs arbitrary: a) (auto intro: order_trans [OF max.cobounded2])

lemma next_id_snoc:
  "next_id (t @ [(''id'', SqlInt (next_id t)) # r]) = next_id t + 1"
  by (simp add: next_id_def int_ids_def col_def)

lemma next_id_fresh: "SqlInt (next_id t) \<notin> ids t"
proof
  assume "SqlInt (next_id t) \<in> ids t"
  then have "next_id t \<in> set (int_ids t)"
    by (force simp: ids_def int_ids_def)
  moreover have "\<And>a. \<forall>x \<in> set xs. x \<le> fold max xs (a::int)" for xs
  proof (induction xs)
    case Nil
    then show ?case by simp
  next
    case (Cons y ys)
    show ?case
      using Cons [of "max y a"] fold_max_ge [of "max y a" ys] by auto
  qed
  ultimately have "next_id t \<le> fold max (int_ids t) 0"
    by blast
  then show False
    by (simp add: next_id_def)
qed

lemma insert_artist_found:
  "select_id_where (artists tx) ''name'' (SqlText n) = Some i \<Longrightarrow>
   insert_artist_if_not_exists n tx = Inr (i, tx)"
  by (simp add: insert_artist_if_not_exists_def)

lemma insert_artist_new:
  "select_id_where (artists tx) ''name'' (SqlText n) = None \<Longrightarrow>
   insert_artist_if_not_exists n tx =
     Inr (SqlInt (next_id (artists tx)),
          tx \<lparr> artists := artists tx @
                 [[(''id'', SqlInt (next_id (artists tx))), (''name'', SqlText n)]] \<rparr>)"
  by (simp add: insert_artist_if_not_exists_def insert_returning_id_def)

lemma insert_song_found:
  "select_id_where (songs tx) ''spotify_id'' (SqlText sid) = Some i \<Longrightarrow>
   insert_song_if_not_exists sn a sid l tx = Inr (i, tx)"
  by (simp add: insert_song_if_not_exists_def)

lemma insert_song_new:
  "select_id_where (songs tx) ''spotify_id'' (SqlText sid) = None \<Longrightarrow>
   insert_song_if_not_exists sn a sid l tx =
     Inr (SqlInt (next_id (songs tx)),
          tx \<lparr> songs := songs tx @
                 [[(''id'', SqlInt (next_id (songs tx))), (''name'', SqlText sn),
                   (''artist_id'', a), (''spotify_id'', SqlText sid),
                   (''link'', SqlText l)]] \<rparr>)"
  by (simp add: insert_song_if_not_exists_def insert_returning_id_def)

subsection \<open>Songs are identified by \<open>spotify_id\<close>\<close>




subsection \<open>Artists are identified by their exact name\<close>

lemma artist_result_row:
  assumes "insert_artist_if_not_exists n tx = Inr (i, tx1)"
  shows "(\<exists>r \<in> set (artists tx1). col r ''name'' = SqlText n \<and> col r ''id'' = i) \<and>
         prefix (artists tx) (artists tx1)"
proof (cases "select_id_where (artists tx) ''name'' (SqlText n)")
  case None
  then show ?thesis
    using assms insert_artist_new [OF None] by (auto simp: col_def)
next
  case (Some j)
  then show ?thesis
    using assms insert_artist_found [OF Some] select_id_where_Some [OF Some] by auto
qed

lemma artist_distinct_ids:
  assumes "distinct (map (\<lambda>r. col r ''id'') (artists tx))"
    and "insert_artist_if_not_exists n tx = Inr (i, tx1)"
  shows "distinct (map (\<lambda>r. col r ''id'') (artists tx1))"
proof (cases "select_id_where (artists tx) ''name'' (SqlText n)")
  case None
  have "SqlInt (next_id (artists tx)) \<notin> (\<lambda>r. col r ''id'') ` set (artists tx)"
    using next_id_fresh [of "artists tx"] by (simp add: ids_def)
  then show ?thesis
    using assms insert_artist_new [OF None] by (auto simp: col_def)
next
  case (Some j)
  then show ?thesis
    using assms insert_artist_found [OF Some] by auto
qed

lemma artist_pair:
  assumes "n \<noteq> n'"
    and "insert_artist_if_not_exists n tx = Inr (i, tx1)"
    and "artists tx2 = artists tx1"
    and "insert_artist_if_not_exists n' tx2 = Inr (i', tx3)"
  shows "\<exists>r \<in> set (artists tx3). \<exists>r' \<in> set (artists tx3).
           r \<noteq> r' \<and> col r ''name'' = SqlText n \<and> col r ''id'' = i \<and>
           col r' ''name'' = SqlText n' \<and> col r' ''id'' = i' \<and>
           (distinct (map (\<lambda>r. col r ''id'') (artists tx)) \<longrightarrow> i \<noteq> i')"
proof -
  obtain r where r: "r \<in> set (artists tx1)" "col r ''name'' = SqlText n" "col r ''id'' = i"
    using artist_result_row [OF assms(2)] by blast
  obtain r' where r': "r' \<in> set (artists tx3)" "col r' ''name'' = SqlText n'"
      "col r' ''id'' = i'"
    and pre: "prefix (artists tx2) (artists tx3)"
    using artist_result_row [OF assms(4)] by blast
  have in3: "r \<in> set (artists tx3)"
    using r(1) pre assms(3) by (auto simp: prefix_def)
  have ne: "r \<noteq> r'"
    using r(2) r'(2) assms(1) by auto
  have "i \<noteq> i'" if d: "distinct (map (\<lambda>r. col r ''id'') (artists tx))"
  proof -
    have "distinct (map (\<lambda>r. col r ''id'') (artists tx2))"
      using artist_distinct_ids [OF d assms(2)] assms(3) by simp
    then have "distinct (map (\<lambda>r. col r ''id'') (artists tx3))"
      using artist_distinct_ids [OF _ assms(4)] by simp
    then have "inj_on (\<lambda>r. col r ''id'') (set (artists tx3))"
      by (simp add: distinct_map)
    then show ?thesis
      using in3 r'(1) ne r(3) r'(3) by (auto dest: inj_onD)
  qed
  then show ?thesis
    using in3 r' r ne by blast
qed

text \<open>
  The lookup or insert of lines 29 to 36 compares names by equality of the texts.  When
  a row of \<open>artists\<close> has exactly the name, the \<open>id\<close> of such a row is returned and nothing
  is inserted.  When no row has exactly the name, whatever other spellings
  the table holds, a new row with that name and a new \<open>id\<close> is appended.  Hence for two
  different names, such as two that differ only in case, of which the table holds neither:
  the first is inserted with the next \<open>id\<close>, and the second, in any later state with the
  same \<open>artists\<close> table, is inserted as a second row with the \<open>id\<close> after it.  And whatever
  the table holds, the two lookups or inserts end with two different rows, one of each
  name, whose \<open>id\<close>s are returned; the two \<open>id\<close>s differ when the \<open>id\<close>s of the table did.
\<close>

theorem artist_lookup_exact_match:
  "((\<exists>r \<in> set (artists tx). col r ''name'' = SqlText n) \<longrightarrow>
      (\<exists>r \<in> set (artists tx). col r ''name'' = SqlText n \<and>
         insert_artist_if_not_exists n tx = Inr (col r ''id'', tx))) \<and>
   ((\<forall>r \<in> set (artists tx). col r ''name'' \<noteq> SqlText n) \<longrightarrow>
      insert_artist_if_not_exists n tx =
        Inr (SqlInt (next_id (artists tx)),
             tx \<lparr> artists := artists tx @
                    [[(''id'', SqlInt (next_id (artists tx))), (''name'', SqlText n)]] \<rparr>)) \<and>
   (n \<noteq> n' \<and> (\<forall>r \<in> set (artists tx). col r ''name'' \<noteq> SqlText n \<and> col r ''name'' \<noteq> SqlText n') \<longrightarrow>
      (\<exists>tx1. insert_artist_if_not_exists n tx = Inr (SqlInt (next_id (artists tx)), tx1) \<and>
         (\<forall>tx2. artists tx2 = artists tx1 \<longrightarrow>
            insert_artist_if_not_exists n' tx2 =
              Inr (SqlInt (next_id (artists tx) + 1),
                   tx2 \<lparr> artists := artists tx @
                     [[(''id'', SqlInt (next_id (artists tx))), (''name'', SqlText n)],
                      [(''id'', SqlInt (next_id (artists tx) + 1)), (''name'', SqlText n')]] \<rparr>)))) \<and>
   (n \<noteq> n' \<longrightarrow>
      (\<exists>i tx1. insert_artist_if_not_exists n tx = Inr (i, tx1) \<and>
         (\<forall>tx2. artists tx2 = artists tx1 \<longrightarrow>
            (\<exists>i' tx3. insert_artist_if_not_exists n' tx2 = Inr (i', tx3) \<and>
               (\<exists>r \<in> set (artists tx3). \<exists>r' \<in> set (artists tx3).
                  r \<noteq> r' \<and> col r ''name'' = SqlText n \<and> col r ''id'' = i \<and>
                  col r' ''name'' = SqlText n' \<and> col r' ''id'' = i' \<and>
                  (distinct (map (\<lambda>r. col r ''id'') (artists tx)) \<longrightarrow> i \<noteq> i'))))))"
proof (intro conjI impI)
  assume "\<exists>r \<in> set (artists tx). col r ''name'' = SqlText n"
  then have "select_id_where (artists tx) ''name'' (SqlText n) \<noteq> None"
    by (simp add: select_id_where_None)
  then obtain i where i: "select_id_where (artists tx) ''name'' (SqlText n) = Some i"
    by blast
  then obtain r where "r \<in> set (artists tx)" "col r ''name'' = SqlText n" "col r ''id'' = i"
    using select_id_where_Some by blast
  then show "\<exists>r \<in> set (artists tx). col r ''name'' = SqlText n \<and>
         insert_artist_if_not_exists n tx = Inr (col r ''id'', tx)"
    using insert_artist_found [OF i] by blast
next
  assume "\<forall>r \<in> set (artists tx). col r ''name'' \<noteq> SqlText n"
  then have "select_id_where (artists tx) ''name'' (SqlText n) = None"
    by (simp add: select_id_where_None)
  then show "insert_artist_if_not_exists n tx =
        Inr (SqlInt (next_id (artists tx)),
             tx \<lparr> artists := artists tx @
                    [[(''id'', SqlInt (next_id (artists tx))), (''name'', SqlText n)]] \<rparr>)"
    by (rule insert_artist_new)
next
  assume a: "n \<noteq> n' \<and>
    (\<forall>r \<in> set (artists tx). col r ''name'' \<noteq> SqlText n \<and> col r ''name'' \<noteq> SqlText n')"
  let ?k = "next_id (artists tx)"
  let ?row = "[(''id'', SqlInt ?k), (''name'', SqlText n)]"
  let ?tx1 = "tx \<lparr> artists := artists tx @ [?row] \<rparr>"
  have "select_id_where (artists tx) ''name'' (SqlText n) = None"
    using a by (simp add: select_id_where_None)
  then have first: "insert_artist_if_not_exists n tx = Inr (SqlInt ?k, ?tx1)"
    by (rule insert_artist_new)
  have second: "insert_artist_if_not_exists n' tx2 =
      Inr (SqlInt (?k + 1),
           tx2 \<lparr> artists := artists tx @
              [?row, [(''id'', SqlInt (?k + 1)), (''name'', SqlText n')]] \<rparr>)"
    if same: "artists tx2 = artists ?tx1" for tx2
  proof -
    have "select_id_where (artists tx2) ''name'' (SqlText n') = None"
      using a same by (simp add: select_id_where_None col_def)
    then show ?thesis
      using insert_artist_new [of tx2 n'] same by (simp add: next_id_snoc)
  qed
  show "\<exists>tx1. insert_artist_if_not_exists n tx = Inr (SqlInt ?k, tx1) \<and>
         (\<forall>tx2. artists tx2 = artists tx1 \<longrightarrow>
            insert_artist_if_not_exists n' tx2 =
              Inr (SqlInt (?k + 1),
                   tx2 \<lparr> artists := artists tx @
                     [?row, [(''id'', SqlInt (?k + 1)), (''name'', SqlText n')]] \<rparr>))"
    using first second by (intro exI [of _ ?tx1]) simp
next
  assume ne: "n \<noteq> n'"
  obtain i tx1 where first: "insert_artist_if_not_exists n tx = Inr (i, tx1)"
    using insert_artist_if_not_exists_returns by blast
  have "\<exists>i' tx3. insert_artist_if_not_exists n' tx2 = Inr (i', tx3) \<and>
          (\<exists>r \<in> set (artists tx3). \<exists>r' \<in> set (artists tx3).
             r \<noteq> r' \<and> col r ''name'' = SqlText n \<and> col r ''id'' = i \<and>
             col r' ''name'' = SqlText n' \<and> col r' ''id'' = i' \<and>
             (distinct (map (\<lambda>r. col r ''id'') (artists tx)) \<longrightarrow> i \<noteq> i'))"
    if same: "artists tx2 = artists tx1" for tx2
  proof -
    obtain i' tx3 where second: "insert_artist_if_not_exists n' tx2 = Inr (i', tx3)"
      using insert_artist_if_not_exists_returns by blast
    show ?thesis
      using artist_pair [OF ne first same second] second by blast
  qed
  then show "\<exists>i tx1. insert_artist_if_not_exists n tx = Inr (i, tx1) \<and>
         (\<forall>tx2. artists tx2 = artists tx1 \<longrightarrow>
            (\<exists>i' tx3. insert_artist_if_not_exists n' tx2 = Inr (i', tx3) \<and>
               (\<exists>r \<in> set (artists tx3). \<exists>r' \<in> set (artists tx3).
                  r \<noteq> r' \<and> col r ''name'' = SqlText n \<and> col r ''id'' = i \<and>
                  col r' ''name'' = SqlText n' \<and> col r' ''id'' = i' \<and>
                  (distinct (map (\<lambda>r. col r ''id'') (artists tx)) \<longrightarrow> i \<noteq> i'))))"
    using first by blast
qed

theorem artist_lookup_exact_match_witness:
  "(\<exists>tx1. insert_artist_if_not_exists ''Drake'' empty_db = Inr (SqlInt 1, tx1) \<and>
      insert_artist_if_not_exists ''drake'' tx1 =
        Inr (SqlInt 2,
             tx1 \<lparr> artists := [[(''id'', SqlInt 1), (''name'', SqlText ''Drake'')],
                                [(''id'', SqlInt 2), (''name'', SqlText ''drake'')]] \<rparr>)) \<and>
   insert_artist_if_not_exists ''Artist X'' db_with_song = Inr (SqlInt 1, db_with_song) \<and>
   insert_artist_if_not_exists ''artist x'' db_with_song =
     Inr (SqlInt 2,
          db_with_song \<lparr> artists := artists db_with_song @
             [[(''id'', SqlInt 2), (''name'', SqlText ''artist x'')]] \<rparr>)"
proof -
  have e: "artists empty_db = []" "next_id [] = 1"
    by (simp_all add: empty_db_def next_id_def int_ids_def)
  have d: "artists db_with_song = [[(''id'', SqlInt 1), (''name'', SqlText ''Artist X'')]]"
    by (simp add: db_with_song_def)
  have k: "next_id [[(''id'', SqlInt 1), (''name'', SqlText ''Artist X'')]] = 2"
    by (simp add: next_id_def int_ids_def col_def)
  have pair: "\<exists>tx1. insert_artist_if_not_exists ''Drake'' empty_db = Inr (SqlInt 1, tx1) \<and>
      insert_artist_if_not_exists ''drake'' tx1 =
        Inr (SqlInt 2,
             tx1 \<lparr> artists := [[(''id'', SqlInt 1), (''name'', SqlText ''Drake'')],
                                [(''id'', SqlInt 2), (''name'', SqlText ''drake'')]] \<rparr>)"
    using artist_lookup_exact_match [of empty_db "''Drake''" "''drake''"] e
    by auto
  have reuse: "insert_artist_if_not_exists ''Artist X'' db_with_song = Inr (SqlInt 1, db_with_song)"
    using artist_lookup_exact_match [of db_with_song "''Artist X''" "''Artist X''"] d
    by (simp add: col_def)
  have other: "insert_artist_if_not_exists ''artist x'' db_with_song =
     Inr (SqlInt 2,
          db_with_song \<lparr> artists := artists db_with_song @
             [[(''id'', SqlInt 2), (''name'', SqlText ''artist x'')]] \<rparr>)"
    using artist_lookup_exact_match [of db_with_song "''artist x''" "''artist x''"] d k
    by (simp add: col_def)
  show ?thesis
    using pair reuse other by blast
qed

lemma csv_reader_drake_file:
  "csv_reader drake_file =
     ([[''January 5, 2024 at 3:45PM'', ''Song A'', ''Drake'', ''abc123'', ''http://a''],
       [''January 5, 2024 at 3:50PM'', ''Song B'', ''drake'', ''def456'', ''http://b'']],
      None)"
  by (simp add: csv_eval drake_file_def quote_field_def escape_quotes_def DQ_def)

lemma process_row_drake:
  "process_row [''January 5, 2024 at 3:45PM'', ''Song A'', ''Drake'', ''abc123'', ''http://a'']
     empty_db =
     (Some DatabaseError,
      \<lparr> artists = [[(''id'', SqlInt 1), (''name'', SqlText ''Drake'')]],
        songs = [[(''id'', SqlInt 1), (''name'', SqlText ''Song A''),
                  (''artist_id'', SqlInt 1), (''spotify_id'', SqlText ''abc123''),
                  (''link'', SqlText ''http://a'')]],
        user_listening_history = [] \<rparr>)"
  by (simp add: process_row_def strptime_example db_eval empty_db_def)

text \<open>
  Claim C5 says that two input rows whose artist names differ only in case produce two
  distinct artist rows.  On a file of two such rows, \<open>Drake\<close> and \<open>drake\<close>, and an empty
  database, the run dies from the database error of the history statement in the
  iteration of the first row: the second row is never processed, the transaction holds
  the one artist row \<open>Drake\<close>, and nothing is committed.
\<close>

theorem C5_second_row_never_reached:
  "main drake_file empty_db =
     \<lparr> committed = empty_db,
       transaction =
         \<lparr> artists = [[(''id'', SqlInt 1), (''name'', SqlText ''Drake'')]],
           songs = [[(''id'', SqlInt 1), (''name'', SqlText ''Song A''),
                     (''artist_id'', SqlInt 1), (''spotify_id'', SqlText ''abc123''),
                     (''link'', SqlText ''http://a'')]],
           user_listening_history = [] \<rparr>,
       conn_open = True, cur_open = True, file_open = False, stdout = [],
       raised = Some DatabaseError \<rparr>"
  by (simp add: main_eval csv_reader_drake_file process_row_drake)

subsection \<open>Referential integrity and the rows already there\<close>

lemma ids_append: "ids (t @ t') = ids t \<union> ids t'"
  by (simp add: ids_def image_Un)

lemma rows_kept_refl: "rows_kept tx tx"
  by (simp add: rows_kept_def)

lemma rows_kept_trans: "rows_kept a b \<Longrightarrow> rows_kept b c \<Longrightarrow> rows_kept a c"
  unfolding rows_kept_def by (meson prefix_order.order_trans)

lemma artist_step:
  assumes "ref_integrity tx" and "insert_artist_if_not_exists n tx = Inr (i, tx1)"
  shows "ref_integrity tx1 \<and> rows_kept tx tx1 \<and> i \<in> ids (artists tx1)"
proof (cases "select_id_where (artists tx) ''name'' (SqlText n)")
  case None
  then have "tx1 = tx \<lparr> artists := artists tx @
                 [[(''id'', SqlInt (next_id (artists tx))), (''name'', SqlText n)]] \<rparr>"
    and "i = SqlInt (next_id (artists tx))"
    using assms(2) insert_artist_new [OF None] by auto
  then show ?thesis
    using assms(1) by (auto simp: ref_integrity_def rows_kept_def ids_append)
      (simp add: ids_def col_def)
next
  case (Some j)
  then have "tx1 = tx" "i = j"
    using assms(2) insert_artist_found [OF Some] by simp_all
  then show ?thesis
    using assms(1) select_id_where_Some [OF Some]
    by (auto simp: rows_kept_refl ids_def)
qed

lemma song_step:
  assumes "ref_integrity tx" and "a \<in> ids (artists tx)"
    and "insert_song_if_not_exists sn a sid l tx = Inr (i, tx1)"
  shows "ref_integrity tx1 \<and> rows_kept tx tx1 \<and> i \<in> ids (songs tx1) \<and>
         artists tx1 = artists tx"
proof (cases "select_id_where (songs tx) ''spotify_id'' (SqlText sid)")
  case None
  then have "tx1 = tx \<lparr> songs := songs tx @
                 [[(''id'', SqlInt (next_id (songs tx))), (''name'', SqlText sn),
                   (''artist_id'', a), (''spotify_id'', SqlText sid),
                   (''link'', SqlText l)]] \<rparr>"
    and "i = SqlInt (next_id (songs tx))"
    using assms(3) insert_song_new [OF None, of sn a l] by auto
  then show ?thesis
    using assms(1,2) by (auto simp: ref_integrity_def rows_kept_def ids_append)
      (simp_all add: ids_def col_def)
next
  case (Some j)
  then have "tx1 = tx" "i = j"
    using assms(3) insert_song_found [OF Some] by simp_all
  then show ?thesis
    using assms(1) select_id_where_Some [OF Some]
    by (auto simp: rows_kept_refl ids_def)
qed

lemma process_row_keeps:
  assumes "ref_integrity tx" and "process_row row tx = (e, tx1)"
  shows "ref_integrity tx1 \<and> rows_kept tx tx1"
proof -
  obtain a txa where a: "insert_artist_if_not_exists (row ! 2) tx = Inr (a, txa)"
    using insert_artist_if_not_exists_returns by blast
  obtain s txs where s:
    "insert_song_if_not_exists (row ! 1) a (row ! 3) (row ! 4) txa = Inr (s, txs)"
    using insert_song_if_not_exists_returns by blast
  have A: "ref_integrity txa \<and> rows_kept tx txa \<and> a \<in> ids (artists txa)"
    using artist_step [OF assms(1) a] .
  have S: "ref_integrity txs \<and> rows_kept txa txs"
    using song_step [of txa a _ _ _ s txs] A s by blast
  have "tx1 = tx \<or> tx1 = txs"
    using assms(2) a s
    by (auto simp: process_row_def insert_listening_history_rejected
        split: list.splits option.splits)
  then show ?thesis
    using assms(1) A S rows_kept_refl rows_kept_trans by blast
qed

lemma process_rows_keeps:
  "ref_integrity tx \<Longrightarrow> process_rows rows tx = (e, tx1) \<Longrightarrow>
   ref_integrity tx1 \<and> rows_kept tx tx1"
proof (induction rows arbitrary: tx)
  case Nil
  then show ?case by (simp add: rows_kept_refl)
next
  case (Cons row rows)
  obtain e' tx' where r: "process_row row tx = (e', tx')"
    by (cases "process_row row tx")
  have k: "ref_integrity tx' \<and> rows_kept tx tx'"
    using process_row_keeps [OF Cons.prems(1) r] .
  show ?case
  proof (cases e')
    case None
    then have "process_rows rows tx' = (e, tx1)"
      using Cons.prems(2) r by simp
    then show ?thesis
      using Cons.IH [of tx'] k rows_kept_trans by blast
  next
    case (Some x)
    then have "tx1 = tx'"
      using Cons.prems(2) r by simp
    then show ?thesis
      using k by simp
  qed
qed

lemma transaction_main:
  "transaction (main text d) = snd (import_loop (csv_reader text) d)"
  by (simp add: main_eval split: prod.split option.split)

lemma import_loop_keeps:
  "ref_integrity tx \<Longrightarrow> import_loop rd tx = (e, tx1) \<Longrightarrow>
   ref_integrity tx1 \<and> rows_kept tx tx1"
  using process_rows_keeps [of tx "fst rd"]
  by (auto simp: import_loop_def split: prod.splits option.splits)

lemma ref_integrity_db_with_song: "ref_integrity db_with_song"
  by (simp add: ref_integrity_def ids_def col_def db_with_song_def)

lemma process_rows_new_artist_and_song:
  "process_rows
     [[''January 5, 2024 at 3:45PM'', ''Song B'', ''Artist Y'', ''xyz789'', ''http://b'']]
     db_with_song =
   (Some DatabaseError,
    \<lparr> artists = [[(''id'', SqlInt 1), (''name'', SqlText ''Artist X'')],
                 [(''id'', SqlInt 2), (''name'', SqlText ''Artist Y'')]],
      songs = [[(''id'', SqlInt 1), (''name'', SqlText ''Old Name''),
                (''artist_id'', SqlInt 1), (''spotify_id'', SqlText ''abc123''),
                (''link'', SqlText ''http://old'')],
               [(''id'', SqlInt 2), (''name'', SqlText ''Song B''),
                (''artist_id'', SqlInt 2), (''spotify_id'', SqlText ''xyz789''),
                (''link'', SqlText ''http://b'')]],
      user_listening_history = [] \<rparr>)"
  by (simp add: process_row_def strptime_example db_eval db_with_song_def)

text \<open>
  Claim C7.  From a state in which every history row references an existing song and
  every song row an existing artist, every step keeps that invariant and keeps every row
  already there unchanged and in place: the lookup or insert of an artist, which returns
  an \<open>id\<close> that the \<open>artists\<close> table holds; the lookup or insert of a song for an \<open>artist_id\<close>
  that the \<open>artists\<close> table holds, which returns an \<open>id\<close> that the \<open>songs\<close> table holds (the
  \<open>song_id\<close> given to the history statement); the loop over any rows, whether it ends in an
  exception or not; and the whole run, whose committed state is the one before it.
\<close>

theorem C7_referential_integrity:
  assumes "ref_integrity tx"
  shows "(\<forall>n i tx1. insert_artist_if_not_exists n tx = Inr (i, tx1) \<longrightarrow>
            ref_integrity tx1 \<and> rows_kept tx tx1 \<and> i \<in> ids (artists tx1)) \<and>
         (\<forall>sn a sid l i tx1. a \<in> ids (artists tx) \<longrightarrow>
            insert_song_if_not_exists sn a sid l tx = Inr (i, tx1) \<longrightarrow>
            ref_integrity tx1 \<and> rows_kept tx tx1 \<and> i \<in> ids (songs tx1)) \<and>
         (\<forall>rows e tx1. process_rows rows tx = (e, tx1) \<longrightarrow>
            ref_integrity tx1 \<and> rows_kept tx tx1) \<and>
         ref_integrity (transaction (main text tx)) \<and>
         rows_kept tx (transaction (main text tx)) \<and>
         committed (main text tx) = tx"
proof -
  have "ref_integrity (snd (import_loop (csv_reader text) tx)) \<and>
        rows_kept tx (snd (import_loop (csv_reader text) tx))"
    using import_loop_keeps [OF assms, of "csv_reader text"]
    by (cases "import_loop (csv_reader text) tx") simp
  then show ?thesis
    using artist_step [OF assms] song_step [OF assms] process_rows_keeps [OF assms]
    by (simp add: transaction_main committed_main)
qed

theorem C7_referential_integrity_witness:
  "ref_integrity db_with_song \<and>
   ref_integrity
     \<lparr> artists = [[(''id'', SqlInt 1), (''name'', SqlText ''Artist X'')],
                 [(''id'', SqlInt 2), (''name'', SqlText ''Artist Y'')]],
      songs = [[(''id'', SqlInt 1), (''name'', SqlText ''Old Name''),
                (''artist_id'', SqlInt 1), (''spotify_id'', SqlText ''abc123''),
                (''link'', SqlText ''http://old'')],
               [(''id'', SqlInt 2), (''name'', SqlText ''Song B''),
                (''artist_id'', SqlInt 2), (''spotify_id'', SqlText ''xyz789''),
                (''link'', SqlText ''http://b'')]],
      user_listening_history = [] \<rparr>"
  using C7_referential_integrity [OF ref_integrity_db_with_song]
    process_rows_new_artist_and_song ref_integrity_db_with_song
  by blast

subsection \<open>Quoted fields\<close>

lemmas step_eval = parse_process_char_def start_field_def parse_save_field_def
  parse_add_char_def is_newline_def

text \<open>
  Inside an unquoted field every character but a comma and a line break is added to the
  field; inside a quoted field every character is, a doubled double quote as one.
\<close>

lemma in_field_chars:
  "\<forall>c \<in> set f. c \<noteq> CHR '','' \<and> c \<noteq> LF \<and> c \<noteq> CR \<Longrightarrow>
   length cur + length f \<le> field_limit \<Longrightarrow>
   process_line \<lparr> state_rd = IN_FIELD, fields_rd = fs, field_rd = cur \<rparr> (f @ rest) =
   process_line \<lparr> state_rd = IN_FIELD, fields_rd = fs, field_rd = cur @ f \<rparr> rest"
proof (induction f arbitrary: cur)
  case Nil
  then show ?case by simp
next
  case (Cons c f)
  have c: "c \<noteq> CHR '',''" "c \<noteq> LF" "c \<noteq> CR"
    and f: "\<forall>c \<in> set f. c \<noteq> CHR '','' \<and> c \<noteq> LF \<and> c \<noteq> CR"
    using Cons.prems(1) by simp_all
  have len: "\<not> field_limit \<le> length cur" "length (cur @ [c]) + length f \<le> field_limit"
    using Cons.prems(2) by simp_all
  show ?case
    using Cons.IH [OF f len(2)] c len(1) by (simp add: step_eval)
qed

lemma in_quoted_field_chars:
  "length cur + length f \<le> field_limit \<Longrightarrow>
   process_line \<lparr> state_rd = IN_QUOTED_FIELD, fields_rd = fs, field_rd = cur \<rparr>
     (escape_quotes f @ rest) =
   process_line \<lparr> state_rd = IN_QUOTED_FIELD, fields_rd = fs, field_rd = cur @ f \<rparr> rest"
proof (induction f arbitrary: cur)
  case Nil
  then show ?case by (simp add: escape_quotes_def)
next
  case (Cons c f)
  have len: "\<not> field_limit \<le> length cur" "length (cur @ [c]) + length f \<le> field_limit"
    using Cons.prems by simp_all
  have esc: "escape_quotes (c # f) = (if c = DQ then [DQ, DQ] else [c]) @ escape_quotes f"
    by (simp add: escape_quotes_def)
  show ?case
    using Cons.IH [OF len(2)] len(1) by (auto simp: esc step_eval DQ_def)
qed

text \<open>A cell and the comma after it; the last cell and the end of the line.\<close>

lemma cell_then_comma:
  assumes "valid_cell cell" and "st = START_RECORD \<or> st = START_FIELD"
  shows "process_line \<lparr> state_rd = st, fields_rd = fs, field_rd = [] \<rparr>
           (written cell @ CHR '','' # rest) =
         process_line \<lparr> state_rd = START_FIELD, fields_rd = fs @ [snd cell], field_rd = [] \<rparr>
           rest"
proof (cases cell)
  case (Pair q f)
  have len: "length f \<le> field_limit"
    using assms(1) Pair by (simp add: valid_cell_def)
  show ?thesis
  proof (cases q)
    case True
    have "process_line \<lparr> state_rd = st, fields_rd = fs, field_rd = [] \<rparr>
            (DQ # escape_quotes f @ DQ # CHR '','' # rest) =
          process_line \<lparr> state_rd = IN_QUOTED_FIELD, fields_rd = fs, field_rd = [] \<rparr>
            (escape_quotes f @ DQ # CHR '','' # rest)"
      using assms(2) by (auto simp: step_eval DQ_def LF_def CR_def)
    also have "\<dots> =
          process_line \<lparr> state_rd = IN_QUOTED_FIELD, fields_rd = fs, field_rd = f \<rparr>
            (DQ # CHR '','' # rest)"
      using in_quoted_field_chars [of "[]" f] len by simp
    also have "\<dots> =
          process_line \<lparr> state_rd = START_FIELD, fields_rd = fs @ [f], field_rd = [] \<rparr> rest"
      by (simp add: step_eval DQ_def)
    finally show ?thesis
      using Pair True by (simp add: written_def quote_field_def)
  next
    case False
    then have pt: "bare_text f"
      using assms(1) Pair by (simp add: valid_cell_def)
    show ?thesis
    proof (cases f)
      case Nil
      then show ?thesis
        using Pair False assms(2) by (auto simp: written_def step_eval LF_def CR_def)
    next
      case (Cons c f')
      have c: "c \<noteq> CHR '',''" "c \<noteq> CHR 0x22" "c \<noteq> LF" "c \<noteq> CR"
        and f': "\<forall>c \<in> set f'. c \<noteq> CHR '','' \<and> c \<noteq> LF \<and> c \<noteq> CR"
        using pt Cons by (simp_all add: bare_text_def DQ_def)
      have lim: "\<not> field_limit \<le> 0"
        by (simp add: field_limit_def)
      have "process_line \<lparr> state_rd = st, fields_rd = fs, field_rd = [] \<rparr>
              (c # f' @ CHR '','' # rest) =
            process_line \<lparr> state_rd = IN_FIELD, fields_rd = fs, field_rd = [c] \<rparr>
              (f' @ CHR '','' # rest)"
        using assms(2) c lim by (auto simp: step_eval)
      also have "\<dots> =
            process_line \<lparr> state_rd = IN_FIELD, fields_rd = fs, field_rd = c # f' \<rparr>
              (CHR '','' # rest)"
        using in_field_chars [OF f', of "[c]"] len Cons by simp
      also have "\<dots> =
            process_line \<lparr> state_rd = START_FIELD, fields_rd = fs @ [f], field_rd = [] \<rparr> rest"
        using Cons by (simp add: step_eval LF_def CR_def)
      finally show ?thesis
        using Pair False Cons by (simp add: written_def)
    qed
  qed
qed

lemma cell_then_end:
  assumes "valid_cell cell" and "nl = [] \<or> nl = [LF]"
  shows "process_line \<lparr> state_rd = START_FIELD, fields_rd = fs, field_rd = [] \<rparr>
           (written cell @ nl) =
         Inr \<lparr> state_rd = START_RECORD, fields_rd = fs @ [snd cell], field_rd = [] \<rparr>"
proof (cases cell)
  case (Pair q f)
  have len: "length f \<le> field_limit"
    using assms(1) Pair by (simp add: valid_cell_def)
  show ?thesis
  proof (cases q)
    case True
    have "process_line \<lparr> state_rd = START_FIELD, fields_rd = fs, field_rd = [] \<rparr>
            (DQ # escape_quotes f @ DQ # nl) =
          process_line \<lparr> state_rd = IN_QUOTED_FIELD, fields_rd = fs, field_rd = [] \<rparr>
            (escape_quotes f @ DQ # nl)"
      by (simp add: step_eval DQ_def LF_def CR_def)
    also have "\<dots> =
          process_line \<lparr> state_rd = IN_QUOTED_FIELD, fields_rd = fs, field_rd = f \<rparr>
            (DQ # nl)"
      using in_quoted_field_chars [of "[]" f] len by simp
    also have "\<dots> =
          Inr \<lparr> state_rd = START_RECORD, fields_rd = fs @ [f], field_rd = [] \<rparr>"
      using assms(2) by (auto simp: step_eval DQ_def LF_def)
    finally show ?thesis
      using Pair True by (simp add: written_def quote_field_def)
  next
    case False
    then have pt: "bare_text f"
      using assms(1) Pair by (simp add: valid_cell_def)
    show ?thesis
    proof (cases f)
      case Nil
      then show ?thesis
        using Pair False assms(2) by (auto simp: written_def step_eval)
    next
      case (Cons c f')
      have c: "c \<noteq> CHR '',''" "c \<noteq> CHR 0x22" "c \<noteq> LF" "c \<noteq> CR"
        and f': "\<forall>c \<in> set f'. c \<noteq> CHR '','' \<and> c \<noteq> LF \<and> c \<noteq> CR"
        using pt Cons by (simp_all add: bare_text_def DQ_def)
      have lim: "\<not> field_limit \<le> 0"
        by (simp add: field_limit_def)
      have "process_line \<lparr> state_rd = START_FIELD, fields_rd = fs, field_rd = [] \<rparr>
              (c # f' @ nl) =
            process_line \<lparr> state_rd = IN_FIELD, fields_rd = fs, field_rd = [c] \<rparr> (f' @ nl)"
        using c lim by (simp add: step_eval)
      also have "\<dots> =
            process_line \<lparr> state_rd = IN_FIELD, fields_rd = fs, field_rd = c # f' \<rparr> nl"
        using in_field_chars [OF f', of "[c]"] len Cons by simp
      also have "\<dots> =
            Inr \<lparr> state_rd = START_RECORD, fields_rd = fs @ [f], field_rd = [] \<rparr>"
        using Cons assms(2) by (auto simp: step_eval)
      finally show ?thesis
        using Pair False Cons by (simp add: written_def)
    qed
  qed
qed

lemma cells_then_end:
  assumes "cells \<noteq> []" and "\<forall>cell \<in> set cells. valid_cell cell" and "nl = [] \<or> nl = [LF]"
  shows "process_line \<lparr> state_rd = START_FIELD, fields_rd = fs, field_rd = [] \<rparr>
           (csv_line cells @ nl) =
         Inr \<lparr> state_rd = START_RECORD, fields_rd = fs @ map snd cells, field_rd = [] \<rparr>"
  using assms(1,2)
proof (induction cells arbitrary: fs rule: list_nonempty_induct)
  case (single cell)
  then show ?case
    using cell_then_end [OF _ assms(3), of cell fs] by (simp add: csv_line_def)
next
  case (cons cell cells)
  obtain c cs where cs: "cells = c # cs"
    using cons.hyps by (cases cells) auto
  have "process_line \<lparr> state_rd = START_FIELD, fields_rd = fs, field_rd = [] \<rparr>
          (written cell @ CHR '','' # (csv_line cells @ nl)) =
        process_line \<lparr> state_rd = START_FIELD, fields_rd = fs @ [snd cell], field_rd = [] \<rparr>
          (csv_line cells @ nl)"
    using cell_then_comma [of cell START_FIELD fs] cons.prems by simp
  then show ?case
    using cons.IH [of "fs @ [snd cell]"] cons.prems cs by (simp add: csv_line_def)
qed

lemma line_of_cells:
  assumes "2 \<le> length cells" and "\<forall>cell \<in> set cells. valid_cell cell"
    and "nl = [] \<or> nl = [LF]"
  shows "process_line parse_reset (csv_line cells @ nl) =
         Inr \<lparr> state_rd = START_RECORD, fields_rd = map snd cells, field_rd = [] \<rparr>"
proof -
  obtain c d ds where cells: "cells = c # d # ds"
    using assms(1) by (cases cells; cases "tl cells") auto
  have "process_line parse_reset (written c @ CHR '','' # (csv_line (d # ds) @ nl)) =
        process_line \<lparr> state_rd = START_FIELD, fields_rd = [snd c], field_rd = [] \<rparr>
          (csv_line (d # ds) @ nl)"
    using cell_then_comma [of c START_RECORD "[]"] assms(2) cells
    by (simp add: parse_reset_def)
  then show ?thesis
    using cells_then_end [of "d # ds" nl "[snd c]"] assms(2,3) cells
    by (simp add: csv_line_def)
qed

lemma insert_artist_keeps_songs:
  "insert_artist_if_not_exists n tx = Inr (a, txa) \<Longrightarrow> songs txa = songs tx"
  by (auto simp: insert_artist_if_not_exists_def insert_returning_id_def
      split: option.splits)

lemma process_row_stores_song:
  assumes "strptime d = Some date_time"
    and "select_id_where (songs tx) ''spotify_id'' (SqlText sid) = None"
  shows "\<exists>artist_id. songs (snd (process_row [d, sn, an, sid, l] tx)) =
           songs tx @
           [[(''id'', SqlInt (next_id (songs tx))), (''name'', SqlText sn),
             (''artist_id'', artist_id), (''spotify_id'', SqlText sid),
             (''link'', SqlText l)]]"
proof -
  obtain a txa where a: "insert_artist_if_not_exists an tx = Inr (a, txa)"
    using insert_artist_if_not_exists_returns by blast
  have same: "songs txa = songs tx"
    using a by (rule insert_artist_keeps_songs)
  then have none: "select_id_where (songs txa) ''spotify_id'' (SqlText sid) = None"
    using assms(2) by simp
  have "songs (snd (process_row [d, sn, an, sid, l] tx)) =
          songs tx @
          [[(''id'', SqlInt (next_id (songs tx))), (''name'', SqlText sn),
            (''artist_id'', a), (''spotify_id'', SqlText sid), (''link'', SqlText l)]]"
    using assms(1) a insert_song_new [OF none, of sn a l] same
    by (simp add: process_row_def insert_listening_history_rejected)
  then show ?thesis
    by blast
qed

lemma five_cells:
  "length cells = 5 \<Longrightarrow>
   cells = [cells ! 0, cells ! 1, cells ! 2, cells ! 3, cells ! 4]"
  by (auto simp: eval_nat_numeral length_Suc_conv)

lemma reader_rows_end: "reader_rows parse_reset [] = ([], None)"
  by (simp add: parse_reset_def)

lemma csv_reader_quoted_song_name:
  "csv_reader
     (quote_field ''January 5, 2024 at 3:45PM'' @ CHR '','' # quote_field ''Hello, World'' @
      '',Artist X,abc123,http://link'' @ [LF]) =
   ([[''January 5, 2024 at 3:45PM'', ''Hello, World'', ''Artist X'', ''abc123'',
      ''http://link'']], None)"
  by (simp add: csv_eval quote_field_def escape_quotes_def DQ_def)

text \<open>
  Claim C10.  A line of five cells, each either wrapped in double quotes (any text
  without a line break, commas included) or bare, with or without its line feed, is read
  as one row of exactly the five texts, whatever lines follow: the commas inside the
  quotes do not split the field.  The row unpacks, so the iteration does not raise the
  malformed-row error; and when the timestamp parses and no song has the row's
  \<open>spotify_id\<close>, the song row that the iteration writes into the transaction carries the
  texts as they are, commas included.
\<close>

theorem C10_quoted_fields:
  assumes "length cells = 5" and "\<forall>cell \<in> set cells. valid_cell cell"
    and "nl = [] \<or> nl = [LF]"
  shows "reader_rows parse_reset ((csv_line cells @ nl) # ls) =
           (map snd cells # fst (reader_rows parse_reset ls),
            snd (reader_rows parse_reset ls)) \<and>
         fst (process_row (map snd cells) tx) \<noteq> Some MalformedRowError \<and>
         (\<forall>date_time.
            strptime (snd (cells ! 0)) = Some date_time \<longrightarrow>
            select_id_where (songs tx) ''spotify_id'' (SqlText (snd (cells ! 3))) = None \<longrightarrow>
            (\<exists>artist_id. songs (snd (process_row (map snd cells) tx)) =
               songs tx @
               [[(''id'', SqlInt (next_id (songs tx))), (''name'', SqlText (snd (cells ! 1))),
                 (''artist_id'', artist_id), (''spotify_id'', SqlText (snd (cells ! 3))),
                 (''link'', SqlText (snd (cells ! 4)))]]))"
proof -
  have line: "process_line parse_reset (csv_line cells @ nl) =
      Inr \<lparr> state_rd = START_RECORD, fields_rd = map snd cells, field_rd = [] \<rparr>"
    using line_of_cells [of cells nl] assms by simp
  have reader: "reader_rows parse_reset ((csv_line cells @ nl) # ls) =
      (map snd cells # fst (reader_rows parse_reset ls), snd (reader_rows parse_reset ls))"
    by (simp add: line split: prod.split)
  have row: "map snd cells =
      [snd (cells ! 0), snd (cells ! 1), snd (cells ! 2), snd (cells ! 3), snd (cells ! 4)]"
    using five_cells [OF assms(1)] by (metis (no_types, lifting) list.simps(8,9))
  have unpack: "fst (process_row (map snd cells) tx) \<noteq> Some MalformedRowError"
  proof -
    obtain a txa where a:
      "insert_artist_if_not_exists (snd (cells ! 2)) tx = Inr (a, txa)"
      using insert_artist_if_not_exists_returns by blast
    obtain s txs where s:
      "insert_song_if_not_exists (snd (cells ! 1)) a (snd (cells ! 3)) (snd (cells ! 4)) txa
         = Inr (s, txs)"
      using insert_song_if_not_exists_returns by blast
    show ?thesis
      using a s
      by (simp add: row process_row_def insert_listening_history_rejected
          split: option.split)
  qed
  show ?thesis
    using reader unpack process_row_stores_song [of "snd (cells ! 0)" _ tx "snd (cells ! 3)"]
    by (simp add: row)
qed

theorem C10_quoted_fields_witness:
  "reader_rows parse_reset
     [csv_line [(True, ''January 5, 2024 at 3:45PM''), (True, ''Hello, World''),
                (False, ''Artist X''), (False, ''abc123''), (False, ''http://link'')]] =
     ([[''January 5, 2024 at 3:45PM'', ''Hello, World'', ''Artist X'', ''abc123'',
        ''http://link'']], None) \<and>
   (\<exists>artist_id.
      songs (snd (process_row
        [''January 5, 2024 at 3:45PM'', ''Hello, World'', ''Artist X'', ''abc123'',
         ''http://link''] empty_db)) =
      [[(''id'', SqlInt 1), (''name'', SqlText ''Hello, World''), (''artist_id'', artist_id),
        (''spotify_id'', SqlText ''abc123''), (''link'', SqlText ''http://link'')]])"
proof -
  let ?cells = "[(True, ''January 5, 2024 at 3:45PM''), (True, ''Hello, World''),
                 (False, ''Artist X''), (False, ''abc123''), (False, ''http://link'')]"
  have valid: "\<forall>cell \<in> set ?cells. valid_cell cell"
    by (simp add: valid_cell_def field_limit_def quotable_text_def bare_text_def
        DQ_def LF_def CR_def)
  have none: "select_id_where (songs empty_db) ''spotify_id'' (SqlText ''abc123'') = None"
    by (simp add: select_id_where_def empty_db_def)
  have e: "songs empty_db = []" "next_id [] = 1"
    by (simp_all add: empty_db_def next_id_def int_ids_def)
  show ?thesis
    using C10_quoted_fields [of ?cells "[]" "[]" empty_db] valid none e strptime_example
      reader_rows_end
    by simp
qed

end
